theory Spec2Isabelle
  imports Main "HOL-Library.Word"
begin

section \<open>The librespeed exporter: data model\<close>

text \<open>
  A shallow embedding of \<^verbatim>\<open>main.go\<close>: the result parser (\<^verbatim>\<open>runLibrespeed\<close>), the
  time-series builder (\<^verbatim>\<open>createTimeSeries\<close> and the four calls in \<^verbatim>\<open>main\<close>), the single
  delivery attempt (\<^verbatim>\<open>sendToRemoteWrite\<close>), the backoff delay (\<^verbatim>\<open>retryDelayFunc\<close>) and
  the retry wrapper (\<^verbatim>\<open>sendToRemoteWriteWithRetry\<close>).

  Go strings and byte slices are byte lists (\<open>string\<close>). A \<^verbatim>\<open>float64\<close> is carried as its
  64-bit pattern: the program only moves measurements around, it never computes with
  them. Go's \<^verbatim>\<open>int\<close> is the 64-bit signed integer of the platform the program is built
  for (it installs the \<^verbatim>\<open>windows_amd64\<close> executable); it is modelled as an \<open>int\<close> kept
  in range by \<open>wrap64\<close>. A Go \<^verbatim>\<open>error\<close> is its message, \<open>None\<close> being \<^verbatim>\<open>nil\<close>. A run-time
  panic is a value of type \<open>panic\<close>, returned on the left of a sum.
\<close>

type_synonym bytes = string
type_synonym float64 = "64 word"
type_synonym int64 = "64 word"
type_synonym go_error = "string option"

datatype panic = IndexOutOfRange | NilDereference | NegativeShift | InvalidIntnArgument

record ServerInfo =
  ID :: int
  URL :: string

record LibrespeedResult =
  Download :: float64
  Upload :: float64
  Ping :: float64
  Jitter :: float64
  Server :: ServerInfo

record Label =
  Name :: string
  Value :: string

record Sample =
  SampleValue :: float64
  Timestamp :: int64

record TimeSeries =
  Labels :: "Label list"
  Samples :: "Sample list"

subsection \<open>Library functions the program relies on\<close>

text \<open>\<^verbatim>\<open>strings.HasPrefix\<close> and \<^verbatim>\<open>strings.Contains\<close>, on byte strings.\<close>

fun HasPrefix :: "string \<Rightarrow> string \<Rightarrow> bool" where
  "HasPrefix s [] = True"
| "HasPrefix [] (p # ps) = False"
| "HasPrefix (c # cs) (p # ps) = (c = p \<and> HasPrefix cs ps)"

fun Contains :: "string \<Rightarrow> string \<Rightarrow> bool" where
  "Contains [] substr = (substr = [])"
| "Contains (c # cs) substr = (HasPrefix (c # cs) substr \<or> Contains cs substr)"

text \<open>The verb \<^verbatim>\<open>%d\<close> of \<^verbatim>\<open>fmt\<close>: decimal digits, with a minus sign below zero.\<close>

definition digit :: "nat \<Rightarrow> char" where
  "digit d = char_of (48 + d)"

function show_nat :: "nat \<Rightarrow> string" where
  "show_nat n = (if n < 10 then [digit n] else show_nat (n div 10) @ [digit (n mod 10)])"
  by pat_completeness auto
termination
  by (relation "measure (\<lambda>n. n)") auto

declare show_nat.simps [simp del]

definition show_int :: "int \<Rightarrow> string" where
  "show_int i = (if i < 0 then CHR ''-'' # show_nat (nat (- i)) else show_nat (nat i))"

text \<open>The verb \<^verbatim>\<open>%v\<close> applied to an error: its message, or \<^verbatim>\<open><nil>\<close>.\<close>

definition fmt_v :: "go_error \<Rightarrow> string" where
  "fmt_v e = (case e of None \<Rightarrow> ''<nil>'' | Some msg \<Rightarrow> msg)"

text \<open>Arithmetic on Go's 64-bit \<^verbatim>\<open>int\<close>: every result is reduced to the signed range.\<close>

definition wrap64 :: "int \<Rightarrow> int" where
  "wrap64 x = (x + 2 ^ 63) mod 2 ^ 64 - 2 ^ 63"

text \<open>
  \<^verbatim>\<open>x << n\<close> with a signed count: a negative count panics, a count of 64 or more shifts
  every bit out.
\<close>

definition shl64 :: "int \<Rightarrow> int \<Rightarrow> panic + int" where
  "shl64 x n =
     (if n < 0 then Inl NegativeShift
      else if 64 \<le> n then Inr 0
      else Inr (wrap64 (x * 2 ^ nat n)))"

text \<open>
  \<^verbatim>\<open>rand.Intn(n)\<close> panics when \<open>n \<le> 0\<close> and otherwise returns a value of \<open>[0, n)\<close>. The
  generator is not part of the program: \<open>u\<close> is the raw number it draws, reduced
  into the range, so that every value of \<open>[0, n)\<close> is the result for some \<open>u\<close>.
\<close>

definition rand_Intn :: "nat \<Rightarrow> int \<Rightarrow> panic + int" where
  "rand_Intn u n = (if n \<le> 0 then Inl InvalidIntnArgument else Inr (int (u mod nat n)))"

section \<open>Time-series builder\<close>

definition createTimeSeries :: "string \<Rightarrow> float64 \<Rightarrow> int64 \<Rightarrow> string \<Rightarrow> string \<Rightarrow> TimeSeries" where
  "createTimeSeries metric v ts serverURL instance =
     \<lparr>Labels = [\<lparr>Name = ''__name__'', Value = metric\<rparr>,
                \<lparr>Name = ''server_url'', Value = serverURL\<rparr>,
                \<lparr>Name = ''instance'', Value = instance\<rparr>],
      Samples = [\<lparr>SampleValue = v, Timestamp = ts\<rparr>]\<rparr>"

fun getLabelValue :: "Label list \<Rightarrow> string \<Rightarrow> string" where
  "getLabelValue [] name = ''''"
| "getLabelValue (label # labels) name =
     (if Name label = name then Value label else getLabelValue labels name)"

text \<open>
  The batch that \<^verbatim>\<open>main\<close> builds from the parsed result, the timestamp taken once and
  the host name. The slice holds pointers; \<open>Some\<close> is a pointer that is not \<^verbatim>\<open>nil\<close>.
\<close>

definition main_series :: "LibrespeedResult \<Rightarrow> int64 \<Rightarrow> string \<Rightarrow> TimeSeries option list" where
  "main_series result now hostname =
     [Some (createTimeSeries ''librespeed_download_mbps'' (Download result) now (URL (Server result)) hostname),
      Some (createTimeSeries ''librespeed_upload_mbps'' (Upload result) now (URL (Server result)) hostname),
      Some (createTimeSeries ''librespeed_ping_ms'' (Ping result) now (URL (Server result)) hostname),
      Some (createTimeSeries ''librespeed_jitter_ms'' (Jitter result) now (URL (Server result)) hostname)]"

section \<open>Backoff delay\<close>

text \<open>
  \<^verbatim>\<open>retryDelayFunc\<close>, a package variable that nothing in the program assigns. The
  result is a \<^verbatim>\<open>time.Duration\<close>: nanoseconds.
\<close>

definition Second :: int where
  "Second = 1000000000"

definition retryDelayFunc :: "nat \<Rightarrow> int \<Rightarrow> panic + int" where
  "retryDelayFunc u attempt =
     (case shl64 1 (wrap64 (attempt - 1)) of
        Inl p \<Rightarrow> Inl p
      | Inr base \<Rightarrow>
          (case shl64 1 (wrap64 (attempt - 1)) of
             Inl p \<Rightarrow> Inl p
           | Inr n \<Rightarrow>
               (case rand_Intn u n of
                  Inl p \<Rightarrow> Inl p
                | Inr r \<Rightarrow>
                    (let backoffSeconds = wrap64 (base + r);
                         backoffSeconds = (if 30 < backoffSeconds then 30 else backoffSeconds)
                     in Inr (wrap64 (backoffSeconds * Second))))))"

section \<open>Single delivery attempt\<close>

text \<open>
  Everything outside the process is a parameter of the model: the protobuf serialiser,
  the snappy encoder, the URL check of \<^verbatim>\<open>http.NewRequestWithContext\<close>, the network and
  the random generator. The network answers the \<open>k\<close>-th request of a run either with a
  transport error (its message) or with a response; a time-out is one of the transport
  errors.
\<close>

record http_request =
  Method :: string
  RequestURL :: string
  Body :: bytes
  Header :: "(string \<times> string) list"
  BasicAuth :: "(string \<times> string) option"
  ContextTimeout :: int
  ClientTimeout :: int

record http_response =
  StatusCode :: int
  Status :: string
  ResponseBody :: bytes

record env =
  Marshal :: "TimeSeries list \<Rightarrow> string + bytes"
  snappy_Encode :: "bytes \<Rightarrow> bytes"
  NewRequest :: "string \<Rightarrow> string \<Rightarrow> string option"
  Do :: "nat \<Rightarrow> http_request \<Rightarrow> string + http_response"
  draw :: "nat \<Rightarrow> nat"

text \<open>
  What a run has done so far: the calls of \<^verbatim>\<open>sendToRemoteWrite\<close> (a counter kept for the
  proofs), the requests handed to \<^verbatim>\<open>client.Do\<close>, the durations handed to
  \<^verbatim>\<open>time.Sleep\<close> (oldest first) and the number of random draws.
\<close>

record world =
  calls :: nat
  requests :: "http_request list"
  sleeps :: "int list"
  draws :: nat

fun Header_Set :: "(string \<times> string) list \<Rightarrow> string \<Rightarrow> string \<Rightarrow> (string \<times> string) list" where
  "Header_Set [] k v = [(k, v)]"
| "Header_Set ((k', v') # h) k v =
     (if k' = k then (k, v) # h else (k', v') # Header_Set h k v)"

definition Header_Get :: "(string \<times> string) list \<Rightarrow> string \<Rightarrow> string option" where
  "Header_Get h k = map_of h k"

text \<open>
  The logging loop of \<^verbatim>\<open>sendToRemoteWrite\<close>: for each pointer of the slice it reads
  \<^verbatim>\<open>ts.Labels\<close>, then \<^verbatim>\<open>ts.Samples[0]\<close>, and appends \<^verbatim>\<open>*ts\<close> to \<^verbatim>\<open>tsList\<close>. The log
  lines themselves are not modelled.
\<close>

fun copy_series :: "TimeSeries list \<Rightarrow> TimeSeries option list \<Rightarrow> panic + TimeSeries list" where
  "copy_series tsList [] = Inr tsList"
| "copy_series tsList (ts # rest) =
     (case ts of
        None \<Rightarrow> Inl NilDereference
      | Some t \<Rightarrow>
          (case Samples t of
             [] \<Rightarrow> Inl IndexOutOfRange
           | s # _ \<Rightarrow> copy_series (tsList @ [t]) rest))"

text \<open>
  The precondition of that loop: the pointer is not \<^verbatim>\<open>nil\<close> and the series it points to
  carries at least one sample.
\<close>

definition has_sample :: "TimeSeries option \<Rightarrow> bool" where
  "has_sample ts = (case ts of None \<Rightarrow> False | Some t \<Rightarrow> Samples t \<noteq> [])"

text \<open>The request as it stands when it is handed to \<^verbatim>\<open>client.Do\<close>.\<close>

definition build_request :: "string \<Rightarrow> string \<Rightarrow> string \<Rightarrow> bytes \<Rightarrow> http_request" where
  "build_request url username password compressed =
     (let h = Header_Set [] ''Content-Encoding'' ''snappy'';
          h = Header_Set h ''Content-Type'' ''application/x-protobuf'';
          h = Header_Set h ''X-Prometheus-Remote-Write-Version'' ''0.1.0''
      in \<lparr>Method = ''POST'', RequestURL = url, Body = compressed, Header = h,
          BasicAuth = Some (username, password),
          ContextTimeout = 30 * Second, ClientTimeout = 30 * Second\<rparr>)"

definition client_Do :: "env \<Rightarrow> http_request \<Rightarrow> world \<Rightarrow> (string + http_response) \<times> world" where
  "client_Do e req w = (Do e (length (requests w)) req, w\<lparr>requests := requests w @ [req]\<rparr>)"

definition sendToRemoteWrite ::
  "env \<Rightarrow> string \<Rightarrow> string \<Rightarrow> string \<Rightarrow> TimeSeries option list \<Rightarrow> world \<Rightarrow> panic + (go_error \<times> world)" where
  "sendToRemoteWrite e url username password series w0 =
     (let w = w0\<lparr>calls := Suc (calls w0)\<rparr> in
      if length series = 0 then Inr (Some ''no time series data to send'', w)
      else
        (case copy_series [] series of
           Inl p \<Rightarrow> Inl p
         | Inr tsList \<Rightarrow>
             (case Marshal e tsList of
                Inl err \<Rightarrow> Inr (Some (''failed to marshal protobuf: '' @ err), w)
              | Inr data \<Rightarrow>
                  (let compressed = snappy_Encode e data in
                   case NewRequest e ''POST'' url of
                     Some err \<Rightarrow> Inr (Some (''failed to create HTTP request: '' @ err), w)
                   | None \<Rightarrow>
                       (let httpReq = build_request url username password compressed;
                            (result, w') = client_Do e httpReq w
                        in case result of
                             Inl err \<Rightarrow> Inr (Some (''failed to send HTTP request: '' @ err), w')
                           | Inr resp \<Rightarrow>
                               if 300 \<le> StatusCode resp
                               then Inr (Some (''remote_write failed: '' @ Status resp @ '' - ''
                                               @ ResponseBody resp), w')
                               else Inr (None, w'))))))"

section \<open>Retry wrapper\<close>

definition time_Sleep :: "int \<Rightarrow> world \<Rightarrow> world" where
  "time_Sleep d w = w\<lparr>sleeps := sleeps w @ [d]\<rparr>"

text \<open>The test after a failed attempt: does the message contain one of the four codes?\<close>

definition non_retryable :: "string \<Rightarrow> bool" where
  "non_retryable msg =
     (Contains msg ''401'' \<or> Contains msg ''403'' \<or> Contains msg ''400'' \<or> Contains msg ''404'')"

text \<open>
  How the \<^verbatim>\<open>for\<close> loop is left: by \<^verbatim>\<open>return nil\<close>, or (by \<^verbatim>\<open>break\<close> or a false loop
  condition) towards the final \<^verbatim>\<open>return\<close>, with \<^verbatim>\<open>lastErr\<close>.
\<close>

datatype loop_exit = ReturnNil | AfterLoop go_error

text \<open>The delay before a retry: one random draw, then the sleep.\<close>

definition before_attempt :: "env \<Rightarrow> int \<Rightarrow> world \<Rightarrow> panic + world" where
  "before_attempt e attempt w =
     (if 0 < attempt then
        (case retryDelayFunc (draw e (draws w)) attempt of
           Inl p \<Rightarrow> Inl p
         | Inr delay \<Rightarrow> Inr (time_Sleep delay (w\<lparr>draws := Suc (draws w)\<rparr>)))
      else Inr w)"

function retry_loop ::
  "env \<Rightarrow> string \<Rightarrow> string \<Rightarrow> string \<Rightarrow> TimeSeries option list \<Rightarrow> int \<Rightarrow> int \<Rightarrow> go_error \<Rightarrow> world
     \<Rightarrow> panic + (loop_exit \<times> world)" where
  "retry_loop e url username password series maxRetries attempt lastErr w =
     (if attempt \<le> maxRetries then
        (case before_attempt e attempt w of
           Inl p \<Rightarrow> Inl p
         | Inr w1 \<Rightarrow>
             (case sendToRemoteWrite e url username password series w1 of
                Inl p \<Rightarrow> Inl p
              | Inr (None, w2) \<Rightarrow> Inr (ReturnNil, w2)
              | Inr (Some msg, w2) \<Rightarrow>
                  if non_retryable msg then Inr (AfterLoop (Some msg), w2)
                  else retry_loop e url username password series maxRetries
                         (wrap64 (attempt + 1)) (Some msg) w2))
      else Inr (AfterLoop lastErr, w))"
  by pat_completeness auto

text \<open>
  The loop ends: a retry index of 64 or more makes \<^verbatim>\<open>retryDelayFunc\<close> panic (shown
  below), so the index never runs past 64, whatever \<^verbatim>\<open>maxRetries\<close> is.
\<close>

lemma wrap64_id: "- (2 ^ 63) \<le> x \<Longrightarrow> x < 2 ^ 63 \<Longrightarrow> wrap64 x = x"
  by (simp add: wrap64_def)

lemma wrap64_nonneg: "0 \<le> x \<Longrightarrow> x < 2 ^ 63 \<Longrightarrow> wrap64 x = x"
  by (rule wrap64_id) simp_all

lemma wrap64_range: "- (2 ^ 63) \<le> wrap64 x \<and> wrap64 x < 2 ^ 63"
proof -
  have "0 \<le> (x + 2 ^ 63) mod (2 ^ 64 :: int)" and "(x + 2 ^ 63) mod (2 ^ 64 :: int) < 2 ^ 64"
    by simp_all
  then show ?thesis unfolding wrap64_def by simp
qed

lemma pow2_le_62: "n \<le> 62 \<Longrightarrow> (2::int) ^ n \<le> 2 ^ 62"
  by (rule power_increasing) simp_all

lemma shl64_one: "0 \<le> k \<Longrightarrow> k \<le> 62 \<Longrightarrow> shl64 1 k = Inr (2 ^ nat k)"
proof -
  assume k: "0 \<le> k" "k \<le> 62"
  then have "(2::int) ^ nat k \<le> 2 ^ 62" by (intro pow2_le_62) simp
  moreover have "(0::int) < 2 ^ nat k" by simp
  ultimately have "wrap64 (2 ^ nat k) = 2 ^ nat k" by (intro wrap64_nonneg) simp_all
  with k show ?thesis by (simp add: shl64_def)
qed

lemma retryDelayFunc_value:
  assumes "1 \<le> a" "a \<le> 63"
  shows "retryDelayFunc u a =
           Inr (min 30 (2 ^ nat (a - 1) + int (u mod 2 ^ nat (a - 1))) * Second)"
proof -
  define k where "k = nat (a - 1)"
  have a1: "wrap64 (a - 1) = a - 1" using assms by (intro wrap64_id) simp_all
  have sh: "shl64 1 (a - 1) = Inr (2 ^ k)" unfolding k_def using assms by (intro shl64_one) simp_all
  have kle: "k \<le> 62" using assms by (simp add: k_def)
  have p: "(2::int) ^ k \<le> 2 ^ 62" using kle by (rule pow2_le_62)
  have r: "rand_Intn u (2 ^ k) = Inr (int (u mod 2 ^ k))"
    by (simp add: rand_Intn_def nat_power_eq)
  have rlt: "int (u mod 2 ^ k) < 2 ^ k"
    by (metis mod_less_divisor of_nat_less_iff of_nat_numeral of_nat_power zero_less_numeral zero_less_power)
  have p0: "(0::int) < 2 ^ k" by simp
  have r0: "0 \<le> int (u mod 2 ^ k)" by simp
  have sum: "wrap64 (2 ^ k + int (u mod 2 ^ k)) = 2 ^ k + int (u mod 2 ^ k)"
  proof (intro wrap64_nonneg)
    show "0 \<le> 2 ^ k + int (u mod 2 ^ k)" using p0 r0 by linarith
    have "2 ^ k + int (u mod 2 ^ k) < 2 ^ k + 2 ^ k" using rlt by linarith
    also have "\<dots> \<le> 2 ^ 62 + 2 ^ 62" using p by linarith
    also have "\<dots> = (2 ^ 63 :: int)" by simp
    finally show "2 ^ k + int (u mod 2 ^ k) < 2 ^ 63" .
  qed
  have m: "wrap64 (min 30 (2 ^ k + int (u mod 2 ^ k)) * Second) = min 30 (2 ^ k + int (u mod 2 ^ k)) * Second"
  proof (intro wrap64_nonneg)
    have "0 \<le> min 30 (2 ^ k + int (u mod 2 ^ k))" by simp
    then show "0 \<le> min 30 (2 ^ k + int (u mod 2 ^ k)) * Second"
      by (simp add: Second_def)
    have "min 30 (2 ^ k + int (u mod 2 ^ k)) \<le> 30" by simp
    then have "min 30 (2 ^ k + int (u mod 2 ^ k)) * Second \<le> 30 * Second"
      by (simp add: Second_def)
    also have "30 * Second < 2 ^ 63" by (simp add: Second_def)
    finally show "min 30 (2 ^ k + int (u mod 2 ^ k)) * Second < 2 ^ 63" .
  qed
  have mn: "(if 30 < x then 30 else x) = min 30 x" for x :: int by (simp add: min_def)
  show ?thesis
    unfolding retryDelayFunc_def a1 sh k_def[symmetric]
    by (simp add: r sum Let_def mn m)
qed

lemma retryDelayFunc_overflow:
  assumes "64 \<le> a" "a < 2 ^ 63"
  shows "retryDelayFunc u a = Inl InvalidIntnArgument"
proof -
  have a1: "wrap64 (a - 1) = a - 1" using assms by (intro wrap64_id) simp_all
  show ?thesis
  proof (cases "a = 64")
    case True
    have "wrap64 (2 ^ 63) = - (2 ^ 63)" by (simp add: wrap64_def)
    then have "shl64 1 63 = Inr (- (2 ^ 63))" by (simp add: shl64_def)
    moreover have "wrap64 63 = 63" by (simp add: wrap64_def)
    ultimately show ?thesis using True by (simp add: retryDelayFunc_def rand_Intn_def)
  next
    case False
    with assms have "shl64 1 (a - 1) = Inr 0" by (simp add: shl64_def)
    then show ?thesis by (simp add: retryDelayFunc_def a1 rand_Intn_def)
  qed
qed

lemma before_attempt_bound:
  assumes "before_attempt e a w = Inr w1" "a < 2 ^ 63"
  shows "a \<le> 63"
proof (rule ccontr)
  assume "\<not> a \<le> 63"
  then have "64 \<le> a" by simp
  then have "retryDelayFunc (draw e (draws w)) a = Inl InvalidIntnArgument"
    using assms(2) by (rule retryDelayFunc_overflow)
  with \<open>64 \<le> a\<close> assms(1) show False by (simp add: before_attempt_def)
qed

definition attempts_left :: "int \<Rightarrow> nat" where
  "attempts_left a = (if - (2 ^ 63) \<le> a \<and> a < 2 ^ 63 then nat (64 - a) else 2 ^ 64)"

lemma attempts_left_decreases:
  assumes "before_attempt e a w = Inr w1"
  shows "attempts_left (wrap64 (a + 1)) < attempts_left a"
proof (cases "- (2 ^ 63) \<le> a \<and> a < 2 ^ 63")
  case True
  then have "a \<le> 63" using assms before_attempt_bound by blast
  with True have "wrap64 (a + 1) = a + 1" by (intro wrap64_id) simp_all
  with True \<open>a \<le> 63\<close> show ?thesis by (simp add: attempts_left_def)
next
  case False
  have r: "- (2 ^ 63) \<le> wrap64 (a + 1) \<and> wrap64 (a + 1) < 2 ^ 63" by (rule wrap64_range)
  then have "nat (64 - wrap64 (a + 1)) < 2 ^ 64" by (simp; linarith)
  moreover have "attempts_left (wrap64 (a + 1)) = nat (64 - wrap64 (a + 1))"
    using r by (simp add: attempts_left_def)
  moreover have "attempts_left a = 2 ^ 64"
    using False unfolding attempts_left_def by (rule if_not_P)
  ultimately show ?thesis by simp
qed

termination retry_loop
  by (relation "measure (\<lambda>(e, url, username, password, series, maxRetries, attempt, lastErr, w).
        attempts_left attempt)") (simp_all add: attempts_left_decreases)

declare retry_loop.simps [simp del]

definition sendToRemoteWriteWithRetry ::
  "env \<Rightarrow> string \<Rightarrow> string \<Rightarrow> string \<Rightarrow> TimeSeries option list \<Rightarrow> int \<Rightarrow> world
     \<Rightarrow> panic + (go_error \<times> world)" where
  "sendToRemoteWriteWithRetry e url username password series maxRetries w =
     (case retry_loop e url username password series maxRetries 0 None w of
        Inl p \<Rightarrow> Inl p
      | Inr (ReturnNil, w') \<Rightarrow> Inr (None, w')
      | Inr (AfterLoop lastErr, w') \<Rightarrow>
          Inr (Some (''failed after '' @ show_int (wrap64 (maxRetries + 1))
                     @ '' attempts, last error: '' @ fmt_v lastErr), w'))"

section \<open>Result parser\<close>





section \<open>Scenarios used by the examples\<close>

text \<open>
  Fixed inputs for the worked examples: a server that gives the same answer to every
  request (as the test servers of the repository do), a serialiser and an encoder that
  always succeed, and a run that has done nothing yet.
\<close>

definition test_env :: "(string + http_response) \<Rightarrow> env" where
  "test_env outcome =
     \<lparr>Marshal = (\<lambda>tsList. Inr ''payload''), snappy_Encode = (\<lambda>data. data),
      NewRequest = (\<lambda>method url. None), Do = (\<lambda>k req. outcome), draw = (\<lambda>k. 0)\<rparr>"

definition start :: world where
  "start = \<lparr>calls = 0, requests = [], sleeps = [], draws = 0\<rparr>"

definition one_series :: "TimeSeries option list" where
  "one_series = [Some (createTimeSeries ''test_metric'' 4607182418800017408 1690000000000 ''server'' ''instance'')]"

definition server_error :: http_response where
  "server_error = \<lparr>StatusCode = 500, Status = ''500 Internal Server Error'',
                    ResponseBody = ''Internal server error with details''\<rparr>"

definition forbidden :: http_response where
  "forbidden = \<lparr>StatusCode = 403, Status = ''403 Forbidden'', ResponseBody = ''Forbidden''\<rparr>"

definition switching_protocols :: http_response where
  "switching_protocols = \<lparr>StatusCode = 101, Status = ''101 Switching Protocols'', ResponseBody = []\<rparr>"

definition no_samples :: TimeSeries where
  "no_samples = \<lparr>Labels = [\<lparr>Name = ''__name__'', Value = ''test_metric''\<rparr>], Samples = []\<rparr>"

definition failing_marshal_env :: env where
  "failing_marshal_env = (test_env (Inr forbidden))\<lparr>Marshal := (\<lambda>tsList. Inl ''size mismatch'')\<rparr>"





section \<open>Auxiliary facts\<close>

subsection \<open>Substrings\<close>

lemma HasPrefix_iff: "HasPrefix s p \<longleftrightarrow> (\<exists>b. s = p @ b)"
  by (induction s p rule: HasPrefix.induct) auto

lemma Contains_iff: "Contains s sub \<longleftrightarrow> (\<exists>a b. s = a @ sub @ b)"
proof (induction s)
  case Nil
  then show ?case by auto
next
  case (Cons c cs)
  show ?case
  proof
    assume "Contains (c # cs) sub"
    then consider "HasPrefix (c # cs) sub" | "Contains cs sub" by auto
    then show "\<exists>a b. c # cs = a @ sub @ b"
    proof cases
      case 1
      then obtain b where "c # cs = sub @ b" using HasPrefix_iff by blast
      then have "c # cs = [] @ sub @ b" by simp
      then show ?thesis by blast
    next
      case 2
      then obtain a b where "cs = a @ sub @ b" using Cons.IH by blast
      then have "c # cs = (c # a) @ sub @ b" by simp
      then show ?thesis by blast
    qed
  next
    assume "\<exists>a b. c # cs = a @ sub @ b"
    then obtain a b where ab: "c # cs = a @ sub @ b" by blast
    show "Contains (c # cs) sub"
    proof (cases a)
      case Nil
      with ab have "HasPrefix (c # cs) sub" using HasPrefix_iff by auto
      then show ?thesis by simp
    next
      case (Cons x a')
      with ab have "cs = a' @ sub @ b" by simp
      then have "Contains cs sub" using Cons.IH by blast
      then show ?thesis by simp
    qed
  qed
qed

lemma Contains_embedded: "Contains s sub \<Longrightarrow> Contains (a @ s @ b) sub"
proof -
  assume "Contains s sub"
  then obtain x y where "s = x @ sub @ y" using Contains_iff by blast
  then have "a @ s @ b = (a @ x) @ sub @ (y @ b)" by simp
  then show ?thesis using Contains_iff by blast
qed

lemma Contains_suffix: "Contains (a @ s) s"
  using Contains_iff[of "a @ s" s] by (metis append_Nil2)

subsection \<open>The single attempt\<close>

lemma sendToRemoteWrite_empty:
  "sendToRemoteWrite e url username password [] w =
     Inr (Some ''no time series data to send'', w\<lparr>calls := Suc (calls w)\<rparr>)"
  by (simp add: sendToRemoteWrite_def)

lemma sendToRemoteWrite_effect:
  assumes "sendToRemoteWrite e url username password series w = Inr (r, w')"
  shows "calls w' = Suc (calls w) \<and> sleeps w' = sleeps w \<and> draws w' = draws w"
  using assms
  by (auto simp: sendToRemoteWrite_def Let_def client_Do_def
           split: if_splits sum.splits option.splits)

lemma sendToRemoteWrite_marshal_error:
  assumes "series \<noteq> []" "copy_series [] series = Inr tsList" "Marshal e tsList = Inl err"
  shows "sendToRemoteWrite e url username password series w =
           Inr (Some (''failed to marshal protobuf: '' @ err), w\<lparr>calls := Suc (calls w)\<rparr>)"
  using assms by (simp add: sendToRemoteWrite_def)

lemma copy_series_ok:
  "list_all has_sample series \<Longrightarrow> copy_series tsList series = Inr (tsList @ map the series)"
  by (induction series arbitrary: tsList) (auto simp: has_sample_def split: option.splits list.splits)

lemma copy_series_Inr:
  "copy_series tsList series = Inr out \<Longrightarrow> list_all has_sample series"
  by (induction series arbitrary: tsList) (auto simp: has_sample_def split: option.splits list.splits)

lemma copy_series_index_panic:
  "list_all (\<lambda>ts. ts \<noteq> None) series \<Longrightarrow> \<not> list_all has_sample series
     \<Longrightarrow> copy_series tsList series = Inl IndexOutOfRange"
  by (induction series arbitrary: tsList) (auto simp: has_sample_def split: option.splits list.splits)

lemma sendToRemoteWrite_returns_iff:
  assumes "series \<noteq> []"
  shows "(\<exists>r. sendToRemoteWrite e url username password series w = Inr r)
           \<longleftrightarrow> list_all has_sample series"
proof
  assume "\<exists>r. sendToRemoteWrite e url username password series w = Inr r"
  then obtain r where r: "sendToRemoteWrite e url username password series w = Inr r" ..
  show "list_all has_sample series"
  proof (cases "copy_series [] series")
    case (Inl p)
    with r assms show ?thesis by (simp add: sendToRemoteWrite_def)
  next
    case (Inr out)
    then show ?thesis by (rule copy_series_Inr)
  qed
next
  assume "list_all has_sample series"
  then have "copy_series [] series = Inr (map the series)"
    using copy_series_ok[of series "[]"] by simp
  then show "\<exists>r. sendToRemoteWrite e url username password series w = Inr r"
    using assms
    by (simp add: sendToRemoteWrite_def Let_def client_Do_def split: sum.splits option.splits)
qed

lemma build_request_headers:
  "Header_Get (Header (build_request url username password body)) ''Content-Encoding'' = Some ''snappy''"
  "Header_Get (Header (build_request url username password body)) ''Content-Type''
     = Some ''application/x-protobuf''"
  "Header_Get (Header (build_request url username password body)) ''X-Prometheus-Remote-Write-Version''
     = Some ''0.1.0''"
  by (simp_all add: build_request_def Header_Get_def Let_def)

lemma send_test_env:
  "sendToRemoteWrite (test_env outcome) url username password one_series w =
     (let w' = w\<lparr>calls := Suc (calls w),
                  requests := requests w @ [build_request url username password ''payload'']\<rparr>
      in case outcome of
           Inl m \<Rightarrow> Inr (Some (''failed to send HTTP request: '' @ m), w')
         | Inr resp \<Rightarrow>
             if 300 \<le> StatusCode resp
             then Inr (Some (''remote_write failed: '' @ Status resp @ '' - '' @ ResponseBody resp), w')
             else Inr (None, w'))"
  by (simp add: sendToRemoteWrite_def test_env_def one_series_def createTimeSeries_def
        client_Do_def Let_def split: sum.splits)

subsection \<open>The delay and the loop\<close>

text \<open>
  For a retry index from 1 to 63 the delay is \<open>min 30 s\<close> seconds for some \<open>s\<close> of
  \<open>[2^(a-1), 2^a)\<close>: positive and at most 30 seconds.
\<close>

lemma retryDelayFunc_in_window:
  assumes "1 \<le> a" "a \<le> 63"
  shows "\<exists>s. 2 ^ nat (a - 1) \<le> s \<and> s < 2 ^ nat a
            \<and> retryDelayFunc u a = Inr (min 30 s * Second)
            \<and> 0 < min 30 s * Second \<and> min 30 s * Second \<le> 30 * Second"
proof -
  define k where "k = nat (a - 1)"
  define s where "s = 2 ^ k + int (u mod 2 ^ k)"
  have "int (u mod 2 ^ k) < 2 ^ k"
    by (metis mod_less_divisor of_nat_less_iff of_nat_numeral of_nat_power zero_less_numeral zero_less_power)
  then have "s < 2 * 2 ^ k" by (simp add: s_def)
  moreover have "nat a = Suc k" using assms by (simp add: k_def)
  ultimately have up: "s < 2 ^ nat a" by simp
  have lo: "2 ^ k \<le> s" by (simp add: s_def)
  have "(0::int) < 2 ^ k" by simp
  with lo have "0 < s" by linarith
  then have pos: "0 < min 30 s * Second" by (simp add: Second_def)
  have le: "min 30 s * Second \<le> 30 * Second" by (simp add: Second_def)
  have "retryDelayFunc u a = Inr (min 30 s * Second)"
    using retryDelayFunc_value[OF assms, of u] by (simp add: k_def s_def)
  with lo up pos le show ?thesis unfolding k_def by blast
qed

lemma before_attempt_first: "before_attempt e 0 w = Inr w"
  by (simp add: before_attempt_def)

lemma before_attempt_retry:
  assumes "1 \<le> a" "a \<le> 63"
  shows "\<exists>d. before_attempt e a w = Inr (time_Sleep d (w\<lparr>draws := Suc (draws w)\<rparr>))
            \<and> 0 < d \<and> d \<le> 30 * Second"
proof -
  obtain s where "retryDelayFunc (draw e (draws w)) a = Inr (min 30 s * Second)"
    and "0 < min 30 s * Second" and "min 30 s * Second \<le> 30 * Second"
    using retryDelayFunc_in_window[OF assms] by blast
  with assms(1) show ?thesis by (auto simp: before_attempt_def)
qed

lemma before_attempt_requests:
  "before_attempt e a w = Inr w1 \<Longrightarrow> requests w1 = requests w \<and> calls w1 = calls w"
  by (auto simp: before_attempt_def time_Sleep_def split: if_splits sum.splits)

lemma retry_loop_exit: "maxRetries < a \<Longrightarrow>
  retry_loop e url username password series maxRetries a lastErr w = Inr (AfterLoop lastErr, w)"
  by (simp add: retry_loop.simps)

lemma retry_loop_step:
  assumes "a \<le> maxRetries" "before_attempt e a w = Inr w1"
    and "sendToRemoteWrite e url username password series w1 = Inr (Some msg, w2)"
    and "\<not> non_retryable msg"
  shows "retry_loop e url username password series maxRetries a lastErr w =
           retry_loop e url username password series maxRetries (wrap64 (a + 1)) (Some msg) w2"
  using assms by (simp add: retry_loop.simps[of _ _ _ _ _ _ a])

lemma retry_loop_stop:
  assumes "a \<le> maxRetries" "before_attempt e a w = Inr w1"
    and "sendToRemoteWrite e url username password series w1 = Inr (Some msg, w2)"
    and "non_retryable msg"
  shows "retry_loop e url username password series maxRetries a lastErr w =
           Inr (AfterLoop (Some msg), w2)"
  using assms by (simp add: retry_loop.simps[of _ _ _ _ _ _ a])

lemma retry_loop_requests:
  "(\<And>wa r wb. sendToRemoteWrite e url username password series wa = Inr (r, wb)
             \<Longrightarrow> requests wb = requests wa)
   \<Longrightarrow> retry_loop e url username password series maxRetries attempt lastErr w = Inr (x, w')
   \<Longrightarrow> requests w' = requests w"
proof (induction e url username password series maxRetries attempt lastErr w
       rule: retry_loop.induct)
  case (1 e url username password series maxRetries attempt lastErr w)
  note send = "1.prems"(1)
  show ?case
  proof (cases "attempt \<le> maxRetries")
    case False
    with "1.prems"(2) show ?thesis by (simp add: retry_loop.simps)
  next
    case True
    show ?thesis
    proof (cases "before_attempt e attempt w")
      case (Inl p)
      with True "1.prems"(2) show ?thesis by (simp add: retry_loop.simps)
    next
      case w1: (Inr w1)
      then have r1: "requests w1 = requests w" using before_attempt_requests by blast
      show ?thesis
      proof (cases "sendToRemoteWrite e url username password series w1")
        case (Inl p)
        with True w1 "1.prems"(2) show ?thesis by (simp add: retry_loop.simps)
      next
        case (Inr rw)
        obtain r w2 where rw: "rw = (r, w2)" by (cases rw)
        have r2: "requests w2 = requests w1" using send Inr rw by blast
        show ?thesis
        proof (cases r)
          case None
          with True w1 Inr rw "1.prems"(2) r1 r2 show ?thesis by (simp add: retry_loop.simps)
        next
          case (Some msg)
          show ?thesis
          proof (cases "non_retryable msg")
            case True
            with \<open>attempt \<le> maxRetries\<close> w1 Inr rw Some "1.prems"(2) r1 r2 show ?thesis
              by (simp add: retry_loop.simps)
          next
            case False
            with \<open>attempt \<le> maxRetries\<close> w1 Inr rw Some "1.prems"(2)
            have "retry_loop e url username password series maxRetries (wrap64 (attempt + 1))
                    (Some msg) w2 = Inr (x, w')"
              by (simp add: retry_loop.simps[of _ _ _ _ _ _ attempt])
            then have "requests w' = requests w2"
              using "1.IH"[OF \<open>attempt \<le> maxRetries\<close> w1 Inr _ _ False send] rw Some
              by simp
            with r1 r2 show ?thesis by simp
          qed
        qed
      qed
    qed
  qed
qed

lemma retry_requests:
  assumes "\<And>wa r wb. sendToRemoteWrite e url username password series wa = Inr (r, wb)
             \<Longrightarrow> requests wb = requests wa"
    and "sendToRemoteWriteWithRetry e url username password series maxRetries w = Inr (r, w')"
  shows "requests w' = requests w"
proof (cases "retry_loop e url username password series maxRetries 0 None w")
  case (Inl p)
  with assms(2) show ?thesis by (simp add: sendToRemoteWriteWithRetry_def)
next
  case (Inr xw)
  obtain x w2 where xw: "xw = (x, w2)" by (cases xw)
  have "retry_loop e url username password series maxRetries 0 None w = Inr (x, w2)"
    using Inr xw by simp
  then have "requests w2 = requests w"
    using assms(1) by (rule retry_loop_requests[rotated])
  moreover have "w' = w2"
    using assms(2) Inr xw by (cases x) (simp_all add: sendToRemoteWriteWithRetry_def)
  ultimately show ?thesis by simp
qed

lemma retry_loop_all_fail:
  assumes fail: "\<forall>w. \<exists>msg w'. sendToRemoteWrite e url username password series w = Inr (Some msg, w')
                    \<and> \<not> non_retryable msg"
  shows "n = nat (maxRetries + 1 - a) \<Longrightarrow> 1 \<le> a \<Longrightarrow> a \<le> maxRetries + 1 \<Longrightarrow> maxRetries \<le> 63 \<Longrightarrow>
     \<exists>le w' ds. retry_loop e url username password series maxRetries a lastErr w
                   = Inr (AfterLoop le, w')
        \<and> calls w' = calls w + n
        \<and> sleeps w' = sleeps w @ ds \<and> length ds = n
        \<and> (\<forall>d \<in> set ds. 0 < d \<and> d \<le> 30 * Second)
        \<and> (if a \<le> maxRetries
            then \<exists>msg wa wb. le = Some msg \<and> \<not> non_retryable msg
                   \<and> sendToRemoteWrite e url username password series wa = Inr (Some msg, wb)
            else le = lastErr)"
proof (induction n arbitrary: a lastErr w)
  case 0
  then have "maxRetries < a" by simp
  then show ?case by (simp add: retry_loop_exit)
next
  case (Suc n)
  then have le: "a \<le> maxRetries" and a63: "a \<le> 63" by simp_all
  obtain d where b: "before_attempt e a w = Inr (time_Sleep d (w\<lparr>draws := Suc (draws w)\<rparr>))"
    and d: "0 < d" "d \<le> 30 * Second"
    using before_attempt_retry[OF Suc.prems(2) a63] by blast
  define w1 where "w1 = time_Sleep d (w\<lparr>draws := Suc (draws w)\<rparr>)"
  obtain msg w2 where s: "sendToRemoteWrite e url username password series w1 = Inr (Some msg, w2)"
    and nr: "\<not> non_retryable msg"
    using fail by blast
  have eff: "calls w2 = Suc (calls w1) \<and> sleeps w2 = sleeps w1"
    using sendToRemoteWrite_effect[OF s] by simp
  have w1c: "calls w1 = calls w" "sleeps w1 = sleeps w @ [d]"
    by (simp_all add: w1_def time_Sleep_def)
  have nx: "wrap64 (a + 1) = a + 1" using Suc.prems(2) a63 by (intro wrap64_nonneg) simp_all
  have step: "retry_loop e url username password series maxRetries a lastErr w =
           retry_loop e url username password series maxRetries (a + 1) (Some msg) w2"
    using retry_loop_step[OF le b[folded w1_def] s nr] nx by simp
  have "n = nat (maxRetries + 1 - (a + 1))" using Suc.prems(1) by simp
  moreover have "1 \<le> a + 1" using Suc.prems(2) by simp
  moreover have "a + 1 \<le> maxRetries + 1" using le by simp
  ultimately obtain le' w' ds where
    r: "retry_loop e url username password series maxRetries (a + 1) (Some msg) w2
          = Inr (AfterLoop le', w')"
    and c: "calls w' = calls w2 + n"
    and sl: "sleeps w' = sleeps w2 @ ds" "length ds = n"
    and db: "\<forall>d \<in> set ds. 0 < d \<and> d \<le> 30 * Second"
    and last: "if a + 1 \<le> maxRetries
            then \<exists>msg' wa wb. le' = Some msg' \<and> \<not> non_retryable msg'
                   \<and> sendToRemoteWrite e url username password series wa = Inr (Some msg', wb)
            else le' = Some msg"
    using Suc.IH[of "a + 1" "Some msg" w2] Suc.prems(4) by blast
  have l2: "\<exists>m wa wb. le' = Some m \<and> \<not> non_retryable m
                   \<and> sendToRemoteWrite e url username password series wa = Inr (Some m, wb)"
    using last s nr by (cases "a + 1 \<le> maxRetries") auto
  have "retry_loop e url username password series maxRetries a lastErr w = Inr (AfterLoop le', w')"
    using step r by simp
  moreover have "calls w' = calls w + Suc n" using c eff w1c by simp
  moreover have "sleeps w' = sleeps w @ (d # ds)" using sl eff w1c by simp
  moreover have "length (d # ds) = Suc n" using sl by simp
  moreover have "\<forall>x \<in> set (d # ds). 0 < x \<and> x \<le> 30 * Second" using db d by simp
  ultimately show ?case using l2 le by (intro exI[of _ le'] exI[of _ w'] exI[of _ "d # ds"]) simp
qed

lemma retry_loop_overflow:
  assumes fail: "\<forall>w. \<exists>msg w'. sendToRemoteWrite e url username password series w = Inr (Some msg, w')
                    \<and> \<not> non_retryable msg"
  shows "n = nat (64 - a) \<Longrightarrow> 1 \<le> a \<Longrightarrow> a \<le> 64 \<Longrightarrow> 64 \<le> maxRetries \<Longrightarrow>
     retry_loop e url username password series maxRetries a lastErr w = Inl InvalidIntnArgument"
proof (induction n arbitrary: a lastErr w)
  case 0
  then have a: "a = 64" by simp
  have "retryDelayFunc (draw e (draws w)) 64 = Inl InvalidIntnArgument"
    by (rule retryDelayFunc_overflow) simp_all
  then have "before_attempt e 64 w = Inl InvalidIntnArgument" by (simp add: before_attempt_def)
  with a "0.prems"(4) show ?case by (simp add: retry_loop.simps[of _ _ _ _ _ _ 64])
next
  case (Suc n)
  then have a63: "a \<le> 63" and le: "a \<le> maxRetries" by simp_all
  obtain d where b: "before_attempt e a w = Inr (time_Sleep d (w\<lparr>draws := Suc (draws w)\<rparr>))"
    using before_attempt_retry[OF Suc.prems(2) a63] by blast
  obtain msg w2 where
    s: "sendToRemoteWrite e url username password series (time_Sleep d (w\<lparr>draws := Suc (draws w)\<rparr>))
          = Inr (Some msg, w2)"
    and nr: "\<not> non_retryable msg"
    using fail by blast
  have nx: "wrap64 (a + 1) = a + 1" using Suc.prems(2) a63 by (intro wrap64_nonneg) simp_all
  have "retry_loop e url username password series maxRetries a lastErr w =
           retry_loop e url username password series maxRetries (a + 1) (Some msg) w2"
    using retry_loop_step[OF le b s nr] nx by simp
  moreover have "retry_loop e url username password series maxRetries (a + 1) (Some msg) w2
                   = Inl InvalidIntnArgument"
    using Suc.prems a63 by (intro Suc.IH) simp_all
  ultimately show ?case by simp
qed

lemma wrap64_one: "wrap64 (0 + 1) = 1"
  by (simp add: wrap64_def)

text \<open>
  When every attempt fails with a message free of the four codes and there are at most
  63 retries, the wrapper makes \<open>maxRetries + 1\<close> attempts, sleeps \<open>maxRetries\<close> times,
  each time for a positive duration of at most 30 seconds, and returns the terminal error
  with the message of an attempt.
\<close>

lemma retry_exhausts_all_attempts:
  assumes fail: "\<forall>w. \<exists>msg w'. sendToRemoteWrite e url username password series w = Inr (Some msg, w')
                    \<and> \<not> non_retryable msg"
    and N: "0 \<le> maxRetries" "maxRetries \<le> 63"
  shows "\<exists>msg w' ds. sendToRemoteWriteWithRetry e url username password series maxRetries w
            = Inr (Some (''failed after '' @ show_int (maxRetries + 1)
                         @ '' attempts, last error: '' @ msg), w')
        \<and> \<not> non_retryable msg
        \<and> (\<exists>wa wb. sendToRemoteWrite e url username password series wa = Inr (Some msg, wb))
        \<and> calls w' = calls w + nat maxRetries + 1
        \<and> sleeps w' = sleeps w @ ds \<and> length ds = nat maxRetries
        \<and> (\<forall>d \<in> set ds. 0 < d \<and> d \<le> 30 * Second)"
proof -
  obtain msg w2 where s: "sendToRemoteWrite e url username password series w = Inr (Some msg, w2)"
    and nr: "\<not> non_retryable msg"
    using fail by blast
  have eff: "calls w2 = Suc (calls w)" "sleeps w2 = sleeps w"
    using sendToRemoteWrite_effect[OF s] by simp_all
  have first: "retry_loop e url username password series maxRetries 0 None w =
           retry_loop e url username password series maxRetries 1 (Some msg) w2"
    using retry_loop_step[OF N(1) before_attempt_first s nr] wrap64_one by simp
  obtain le w' ds where
    r: "retry_loop e url username password series maxRetries 1 (Some msg) w2 = Inr (AfterLoop le, w')"
    and c: "calls w' = calls w2 + nat (maxRetries + 1 - 1)"
    and sl: "sleeps w' = sleeps w2 @ ds" "length ds = nat (maxRetries + 1 - 1)"
    and db: "\<forall>d \<in> set ds. 0 < d \<and> d \<le> 30 * Second"
    and last: "if 1 \<le> maxRetries
            then \<exists>msg' wa wb. le = Some msg' \<and> \<not> non_retryable msg'
                   \<and> sendToRemoteWrite e url username password series wa = Inr (Some msg', wb)
            else le = Some msg"
    using retry_loop_all_fail[OF fail refl, of 1 maxRetries "Some msg" w2] N by auto
  obtain m where m: "le = Some m" "\<not> non_retryable m"
    "\<exists>wa wb. sendToRemoteWrite e url username password series wa = Inr (Some m, wb)"
    using last s nr by (cases "1 \<le> maxRetries") auto
  have wr: "wrap64 (maxRetries + 1) = maxRetries + 1" using N by (intro wrap64_nonneg) simp_all
  have "sendToRemoteWriteWithRetry e url username password series maxRetries w
            = Inr (Some (''failed after '' @ show_int (maxRetries + 1)
                         @ '' attempts, last error: '' @ m), w')"
    using first r m(1) wr by (simp add: sendToRemoteWriteWithRetry_def fmt_v_def)
  moreover have "calls w' = calls w + nat maxRetries + 1" using c eff by simp
  moreover have "sleeps w' = sleeps w @ ds" using sl eff by simp
  moreover have "length ds = nat maxRetries" using sl by simp
  ultimately show ?thesis using m(2,3) db by blast
qed

text \<open>
  With 64 retries or more the same run does not return: the delay before the attempt of
  index 64 panics.
\<close>

lemma retry_panics_beyond_63:
  assumes fail: "\<forall>w. \<exists>msg w'. sendToRemoteWrite e url username password series w = Inr (Some msg, w')
                    \<and> \<not> non_retryable msg"
    and N: "64 \<le> maxRetries"
  shows "sendToRemoteWriteWithRetry e url username password series maxRetries w
           = Inl InvalidIntnArgument"
proof -
  obtain msg w2 where s: "sendToRemoteWrite e url username password series w = Inr (Some msg, w2)"
    and nr: "\<not> non_retryable msg"
    using fail by blast
  have "0 \<le> maxRetries" using N by simp
  then have first: "retry_loop e url username password series maxRetries 0 None w =
           retry_loop e url username password series maxRetries 1 (Some msg) w2"
    using retry_loop_step[OF _ before_attempt_first s nr] wrap64_one by simp
  have "retry_loop e url username password series maxRetries 1 (Some msg) w2 = Inl InvalidIntnArgument"
    using retry_loop_overflow[OF fail refl, of 1 maxRetries "Some msg" w2] N by simp
  with first show ?thesis by (simp add: sendToRemoteWriteWithRetry_def)
qed

lemma retry_stops_at_first_non_retryable:
  assumes "0 \<le> maxRetries"
    and "sendToRemoteWrite e url username password series w = Inr (Some msg, w1)"
    and "non_retryable msg"
  shows "sendToRemoteWriteWithRetry e url username password series maxRetries w
           = Inr (Some (''failed after '' @ show_int (wrap64 (maxRetries + 1))
                        @ '' attempts, last error: '' @ msg), w1)"
  using retry_loop_stop[OF assms(1) before_attempt_first assms(2,3)]
  by (simp add: sendToRemoteWriteWithRetry_def fmt_v_def)

lemma retry_same_failure:
  assumes same: "\<forall>w. sendToRemoteWrite e url username password series w
                       = Inr (Some msg, w\<lparr>calls := Suc (calls w)\<rparr>)"
    and nr: "\<not> non_retryable msg"
    and N: "0 \<le> maxRetries" "maxRetries \<le> 63"
  shows "\<exists>w'. sendToRemoteWriteWithRetry e url username password series maxRetries w
            = Inr (Some (''failed after '' @ show_int (maxRetries + 1)
                         @ '' attempts, last error: '' @ msg), w')
        \<and> calls w' = calls w + nat maxRetries + 1
        \<and> length (sleeps w') = length (sleeps w) + nat maxRetries
        \<and> requests w' = requests w"
proof -
  have fail: "\<forall>w. \<exists>m w'. sendToRemoteWrite e url username password series w = Inr (Some m, w')
                    \<and> \<not> non_retryable m"
    using same nr by blast
  obtain m w' ds where
    r: "sendToRemoteWriteWithRetry e url username password series maxRetries w
            = Inr (Some (''failed after '' @ show_int (maxRetries + 1)
                         @ '' attempts, last error: '' @ m), w')"
    and m: "\<exists>wa wb. sendToRemoteWrite e url username password series wa = Inr (Some m, wb)"
    and c: "calls w' = calls w + nat maxRetries + 1"
    and sl: "sleeps w' = sleeps w @ ds" "length ds = nat maxRetries"
    using retry_exhausts_all_attempts[OF fail N, of w] by blast
  have "m = msg" using m same by auto
  moreover have "requests w' = requests w"
  proof (rule retry_requests[OF _ r])
    fix wa r wb
    assume "sendToRemoteWrite e url username password series wa = Inr (r, wb)"
    with same show "requests wb = requests wa" by auto
  qed
  ultimately show ?thesis using r c sl by simp
qed

lemma empty_batch_retryable: "\<not> non_retryable ''no time series data to send''"
  by (simp add: non_retryable_def)

lemma server_error_retryable:
  "\<not> non_retryable (''remote_write failed: '' @ Status server_error @ '' - '' @ ResponseBody server_error)"
  by (simp add: non_retryable_def server_error_def)

lemma server_error_always_fails:
  "\<forall>w. \<exists>msg w'. sendToRemoteWrite (test_env (Inr server_error)) url username password one_series w
                     = Inr (Some msg, w') \<and> \<not> non_retryable msg"
proof
  fix w
  have "300 \<le> StatusCode server_error" by (simp add: server_error_def)
  then show "\<exists>msg w'. sendToRemoteWrite (test_env (Inr server_error)) url username password one_series w
                     = Inr (Some msg, w') \<and> \<not> non_retryable msg"
    using server_error_retryable by (simp add: send_test_env Let_def)
qed

lemma show_int_4: "show_int (wrap64 (3 + 1)) = ''4''"
  by code_simp

lemma show_int_2: "show_int (1 + 1) = ''2''"
  by code_simp

section \<open>The claims\<close>

subsection \<open>Retrying until the attempts are used up\<close>

text \<open>
  Claim C1. With at most 63 retries and a failure of every attempt whose message has none
  of the four codes, the wrapper makes \<open>maxRetries + 1\<close> attempts and returns the terminal
  error (\<open>retry_exhausts_all_attempts\<close>). The claim says so for every
  \<open>maxRetries \<ge> 0\<close>; with 64 retries against a server that answers 500 every time, the
  65th attempt is never made: the delay before it is computed from \<^verbatim>\<open>1 << 63\<close>, which is
  negative, and \<^verbatim>\<open>rand.Intn\<close> panics.
\<close>

theorem persistent_failure_panics_at_64_retries:
  "sendToRemoteWriteWithRetry (test_env (Inr server_error)) ''http://example.com'' ''user'' ''pass''
     one_series 64 start = Inl InvalidIntnArgument"
  by (rule retry_panics_beyond_63[OF server_error_always_fails]) simp

subsection \<open>Stopping on a client error\<close>

text \<open>
  Claim C2. For every \<open>maxRetries \<ge> 1\<close>: when the first attempt fails with a message
  that contains 400, 401, 403 or 404, the wrapper returns straight away, in the state the
  attempt left: one call of \<^verbatim>\<open>sendToRemoteWrite\<close>, no sleep, no random draw; and the
  error it returns contains the same code.
\<close>

theorem retry_stops_on_client_error:
  assumes "1 \<le> maxRetries"
    and "sendToRemoteWrite e url username password series w = Inr (Some msg, w1)"
    and "code \<in> {''400'', ''401'', ''403'', ''404''}"
    and "Contains msg code"
  shows "\<exists>report. sendToRemoteWriteWithRetry e url username password series maxRetries w
                     = Inr (Some report, w1)
           \<and> Contains report code
           \<and> calls w1 = Suc (calls w) \<and> sleeps w1 = sleeps w \<and> draws w1 = draws w"
proof -
  have n: "non_retryable msg" using assms(3,4) by (auto simp: non_retryable_def)
  have "0 \<le> maxRetries" using assms(1) by simp
  then have r: "sendToRemoteWriteWithRetry e url username password series maxRetries w
           = Inr (Some (''failed after '' @ show_int (wrap64 (maxRetries + 1))
                        @ '' attempts, last error: '' @ msg), w1)"
    using assms(2) n by (rule retry_stops_at_first_non_retryable)
  have "Contains ((''failed after '' @ show_int (wrap64 (maxRetries + 1))
                        @ '' attempts, last error: '') @ msg @ []) code"
    using assms(4) by (rule Contains_embedded)
  then have "Contains (''failed after '' @ show_int (wrap64 (maxRetries + 1))
                        @ '' attempts, last error: '' @ msg) code" by simp
  with r sendToRemoteWrite_effect[OF assms(2)] show ?thesis by blast
qed

theorem retry_stops_on_client_error_witness:
  "(1::int) \<le> 3
   \<and> sendToRemoteWrite (test_env (Inr forbidden)) ''http://example.com'' ''user'' ''pass''
        one_series start
      = Inr (Some ''remote_write failed: 403 Forbidden - Forbidden'',
             start\<lparr>calls := 1,
                   requests := [build_request ''http://example.com'' ''user'' ''pass'' ''payload'']\<rparr>)
   \<and> ''403'' \<in> {''400'', ''401'', ''403'', ''404''}
   \<and> Contains ''remote_write failed: 403 Forbidden - Forbidden'' ''403''
   \<and> (\<exists>report. sendToRemoteWriteWithRetry (test_env (Inr forbidden)) ''http://example.com''
                    ''user'' ''pass'' one_series 3 start
                  = Inr (Some report,
                         start\<lparr>calls := 1,
                               requests := [build_request ''http://example.com'' ''user'' ''pass''
                                              ''payload'']\<rparr>)
         \<and> Contains report ''403'')"
proof -
  have s: "sendToRemoteWrite (test_env (Inr forbidden)) ''http://example.com'' ''user'' ''pass''
             one_series start
           = Inr (Some ''remote_write failed: 403 Forbidden - Forbidden'',
                  start\<lparr>calls := 1,
                        requests := [build_request ''http://example.com'' ''user'' ''pass'' ''payload'']\<rparr>)"
    by (simp add: send_test_env Let_def forbidden_def start_def)
  have c: "Contains ''remote_write failed: 403 Forbidden - Forbidden'' ''403''" by simp
  have m: "''403'' \<in> {''400'', ''401'', ''403'', ''404''}" by simp
  have n: "(1::int) \<le> 3" by simp
  show ?thesis
    using s c m n retry_stops_on_client_error[OF n s m c] by blast
qed

subsection \<open>Empty batches and serialisation errors in the loop\<close>

theorem empty_batch_is_retried_example:
  "sendToRemoteWriteWithRetry (test_env (Inr forbidden)) ''http://example.com'' ''user'' ''pass''
     [] 1 start
   = Inr (Some ''failed after 2 attempts, last error: no time series data to send'',
          \<lparr>calls = 2, requests = [], sleeps = [Second], draws = 1\<rparr>)"
proof -
  let ?e = "test_env (Inr forbidden)"
  have d: "retryDelayFunc 0 1 = Inr Second"
    using retryDelayFunc_value[of 1 0] by simp
  have b: "before_attempt ?e 1 (start\<lparr>calls := 1\<rparr>)
             = Inr (time_Sleep Second (start\<lparr>calls := 1, draws := 1\<rparr>))"
    using d by (simp add: before_attempt_def test_env_def start_def)
  have l2: "retry_loop ?e ''http://example.com'' ''user'' ''pass'' [] 1 1
              (Some ''no time series data to send'') (start\<lparr>calls := 1\<rparr>)
            = retry_loop ?e ''http://example.com'' ''user'' ''pass'' [] 1 (wrap64 (1 + 1))
              (Some ''no time series data to send'')
              ((time_Sleep Second (start\<lparr>calls := 1, draws := 1\<rparr>))\<lparr>calls := 2\<rparr>)"
    by (rule retry_loop_step[OF _ b _ empty_batch_retryable])
       (simp_all add: sendToRemoteWrite_empty time_Sleep_def start_def)
  have l1: "retry_loop ?e ''http://example.com'' ''user'' ''pass'' [] 1 0 None start
            = retry_loop ?e ''http://example.com'' ''user'' ''pass'' [] 1 (wrap64 (0 + 1))
              (Some ''no time series data to send'') (start\<lparr>calls := 1\<rparr>)"
    by (rule retry_loop_step[OF _ before_attempt_first _ empty_batch_retryable])
       (simp_all add: sendToRemoteWrite_empty start_def)
  have w2: "wrap64 (1 + 1) = 2" by (simp add: wrap64_def)
  have l3: "retry_loop ?e ''http://example.com'' ''user'' ''pass'' [] 1 2
              (Some ''no time series data to send'')
              ((time_Sleep Second (start\<lparr>calls := 1, draws := 1\<rparr>))\<lparr>calls := 2\<rparr>)
            = Inr (AfterLoop (Some ''no time series data to send''),
                   (time_Sleep Second (start\<lparr>calls := 1, draws := 1\<rparr>))\<lparr>calls := 2\<rparr>)"
    by (rule retry_loop_exit) simp
  show ?thesis
    using l1 l2 l3 w2 show_int_2
    by (simp add: sendToRemoteWriteWithRetry_def wrap64_one fmt_v_def time_Sleep_def start_def
          wrap64_def)
qed

text \<open>
  Claim C3, as the code has it. The loop stops early only on a message that contains one
  of the four codes; the empty-batch error and a serialisation error are retried like any
  other failure. With an empty slice, or with a serialiser that fails with a message free
  of the four codes, and \<open>0 \<le> maxRetries \<le> 63\<close>, the wrapper makes \<open>maxRetries + 1\<close>
  attempts, sleeps \<open>maxRetries\<close> times, issues no request and returns the terminal error
  with the underlying message. The example above is the claim's failure: an empty slice
  and one retry give two attempts and a sleep of one second.
\<close>

theorem empty_batch_and_encoding_errors_are_retried:
  "(0 \<le> maxRetries \<and> maxRetries \<le> 63 \<longrightarrow>
      (\<exists>w'. sendToRemoteWriteWithRetry e url username password [] maxRetries w
               = Inr (Some (''failed after '' @ show_int (maxRetries + 1)
                            @ '' attempts, last error: no time series data to send''), w')
          \<and> calls w' = calls w + nat maxRetries + 1
          \<and> length (sleeps w') = length (sleeps w) + nat maxRetries
          \<and> requests w' = requests w))
   \<and> (0 \<le> maxRetries \<and> maxRetries \<le> 63 \<and> series \<noteq> [] \<and> copy_series [] series = Inr tsList
        \<and> Marshal e tsList = Inl err \<and> \<not> non_retryable (''failed to marshal protobuf: '' @ err) \<longrightarrow>
      (\<exists>w'. sendToRemoteWriteWithRetry e url username password series maxRetries w
               = Inr (Some (''failed after '' @ show_int (maxRetries + 1)
                            @ '' attempts, last error: failed to marshal protobuf: '' @ err), w')
          \<and> calls w' = calls w + nat maxRetries + 1
          \<and> length (sleeps w') = length (sleeps w) + nat maxRetries
          \<and> requests w' = requests w))"
proof (intro conjI impI)
  assume "0 \<le> maxRetries \<and> maxRetries \<le> 63"
  then show "\<exists>w'. sendToRemoteWriteWithRetry e url username password [] maxRetries w
               = Inr (Some (''failed after '' @ show_int (maxRetries + 1)
                            @ '' attempts, last error: no time series data to send''), w')
          \<and> calls w' = calls w + nat maxRetries + 1
          \<and> length (sleeps w') = length (sleeps w) + nat maxRetries
          \<and> requests w' = requests w"
    using retry_same_failure[of e url username password "[]" "''no time series data to send''"
            maxRetries w] empty_batch_retryable sendToRemoteWrite_empty
    by simp
next
  assume a: "0 \<le> maxRetries \<and> maxRetries \<le> 63 \<and> series \<noteq> [] \<and> copy_series [] series = Inr tsList
        \<and> Marshal e tsList = Inl err \<and> \<not> non_retryable (''failed to marshal protobuf: '' @ err)"
  then have "\<forall>w. sendToRemoteWrite e url username password series w
           = Inr (Some (''failed to marshal protobuf: '' @ err), w\<lparr>calls := Suc (calls w)\<rparr>)"
    using sendToRemoteWrite_marshal_error by blast
  then show "\<exists>w'. sendToRemoteWriteWithRetry e url username password series maxRetries w
               = Inr (Some (''failed after '' @ show_int (maxRetries + 1)
                            @ '' attempts, last error: failed to marshal protobuf: '' @ err), w')
          \<and> calls w' = calls w + nat maxRetries + 1
          \<and> length (sleeps w') = length (sleeps w) + nat maxRetries
          \<and> requests w' = requests w"
    using retry_same_failure[of e url username password series
            "''failed to marshal protobuf: '' @ err" maxRetries w] a
    by simp
qed

theorem empty_batch_and_encoding_errors_are_retried_witness:
  "((0::int) \<le> 3 \<and> (3::int) \<le> 63
      \<and> (\<exists>w'. sendToRemoteWriteWithRetry (test_env (Inr forbidden)) ''http://example.com''
                  ''user'' ''pass'' [] 3 start
               = Inr (Some (''failed after '' @ show_int (3 + 1)
                            @ '' attempts, last error: no time series data to send''), w')
          \<and> calls w' = 4 \<and> length (sleeps w') = 3 \<and> requests w' = []))
   \<and> ((0::int) \<le> 3 \<and> (3::int) \<le> 63 \<and> one_series \<noteq> []
      \<and> copy_series [] one_series = Inr (map the one_series)
      \<and> Marshal failing_marshal_env (map the one_series) = Inl ''size mismatch''
      \<and> \<not> non_retryable (''failed to marshal protobuf: '' @ ''size mismatch'')
      \<and> (\<exists>w'. sendToRemoteWriteWithRetry failing_marshal_env ''http://example.com''
                  ''user'' ''pass'' one_series 3 start
               = Inr (Some (''failed after '' @ show_int (3 + 1)
                            @ '' attempts, last error: failed to marshal protobuf: ''
                            @ ''size mismatch''), w')
          \<and> calls w' = 4 \<and> length (sleeps w') = 3 \<and> requests w' = []))"
proof -
  have a: "one_series \<noteq> []" by (simp add: one_series_def)
  have b: "copy_series [] one_series = Inr (map the one_series)"
    by (simp add: one_series_def createTimeSeries_def)
  have c: "Marshal failing_marshal_env (map the one_series) = Inl ''size mismatch''"
    by (simp add: failing_marshal_env_def test_env_def)
  have d: "\<not> non_retryable (''failed to marshal protobuf: '' @ ''size mismatch'')"
    by (simp add: non_retryable_def)
  have s: "calls start = 0" "sleeps start = []" "requests start = []"
    by (simp_all add: start_def)
  show ?thesis
    using a b c d s
      empty_batch_and_encoding_errors_are_retried
        [of 3 "test_env (Inr forbidden)" "''http://example.com''" "''user''" "''pass''" start
            "[]" "[]" "[]"]
      empty_batch_and_encoding_errors_are_retried
        [of 3 failing_marshal_env "''http://example.com''" "''user''" "''pass''" start
            one_series "map the one_series" "''size mismatch''"]
    by simp
qed

subsection \<open>The attempt count of the terminal error\<close>

text \<open>
  Claim C4. The terminal error carries the last underlying error, but the number in it
  is always \<open>maxRetries + 1\<close>. When the first attempt is answered with 403 and
  \<open>maxRetries = 3\<close>, one attempt has been made (\<open>calls = 1\<close>, one request, no sleep)
  and the message says ``failed after 4 attempts''.
\<close>

theorem early_stop_reports_configured_maximum:
  "sendToRemoteWriteWithRetry (test_env (Inr forbidden)) ''http://example.com'' ''user'' ''pass''
     one_series 3 start
   = Inr (Some ''failed after 4 attempts, last error: remote_write failed: 403 Forbidden - Forbidden'',
          start\<lparr>calls := 1,
                requests := [build_request ''http://example.com'' ''user'' ''pass'' ''payload'']\<rparr>)"
proof -
  have s: "sendToRemoteWrite (test_env (Inr forbidden)) ''http://example.com'' ''user'' ''pass''
             one_series start
           = Inr (Some ''remote_write failed: 403 Forbidden - Forbidden'',
                  start\<lparr>calls := 1,
                        requests := [build_request ''http://example.com'' ''user'' ''pass'' ''payload'']\<rparr>)"
    by (simp add: send_test_env Let_def forbidden_def start_def)
  have n: "non_retryable ''remote_write failed: 403 Forbidden - Forbidden''"
    by (simp add: non_retryable_def)
  show ?thesis
    using retry_stops_at_first_non_retryable[OF _ s n, of 3] show_int_4 by simp
qed

subsection \<open>The backoff delay\<close>

text \<open>
  Claim C5. For a retry index from 1 to 63 the delay is a whole number of seconds,
  \<open>min 30 s\<close> for some \<open>s\<close> of \<open>[2^(a-1), 2^a)\<close>, hence positive and at most 30 seconds
  (\<open>retryDelayFunc_in_window\<close>). The claim says so for every index \<open>a \<ge> 1\<close>; at
  \<open>a = 64\<close> the function computes no delay: \<^verbatim>\<open>1 << 63\<close> is negative in 64 bits and
  \<^verbatim>\<open>rand.Intn\<close> panics, whatever the draw.
\<close>

theorem retryDelayFunc_panics_at_64: "retryDelayFunc u 64 = Inl InvalidIntnArgument"
  by (rule retryDelayFunc_overflow) simp_all

subsection \<open>The four series\<close>

text \<open>
  Claim C6. The builder yields exactly four series, in the order download, upload, ping,
  jitter; each has exactly one sample, holding the measurement and the common timestamp,
  and exactly the labels \<^verbatim>\<open>__name__\<close>, \<^verbatim>\<open>server_url\<close>, \<^verbatim>\<open>instance\<close> in this order, the last
  two with the same values in all four. Being a function of its three inputs, the result
  is the same whenever they are.
\<close>

theorem main_series_four_samples:
  "\<exists>d u p j. main_series result now hostname = [Some d, Some u, Some p, Some j]
     \<and> map (\<lambda>s. getLabelValue (Labels s) ''__name__'') [d, u, p, j]
         = [''librespeed_download_mbps'', ''librespeed_upload_mbps'',
            ''librespeed_ping_ms'', ''librespeed_jitter_ms'']
     \<and> map (\<lambda>s. map SampleValue (Samples s)) [d, u, p, j]
         = [[Download result], [Upload result], [Ping result], [Jitter result]]
     \<and> map (\<lambda>s. map Timestamp (Samples s)) [d, u, p, j] = replicate 4 [now]
     \<and> map (\<lambda>s. map Name (Labels s)) [d, u, p, j]
         = replicate 4 [''__name__'', ''server_url'', ''instance'']
     \<and> map (\<lambda>s. getLabelValue (Labels s) ''server_url'') [d, u, p, j]
         = replicate 4 (URL (Server result))
     \<and> map (\<lambda>s. getLabelValue (Labels s) ''instance'') [d, u, p, j] = replicate 4 hostname"
  by (simp add: main_series_def createTimeSeries_def numeral_Bit0 numeral_Bit1)

subsection \<open>The first parsed result\<close>




subsection \<open>The empty batch\<close>

text \<open>
  Claim C8. With an empty slice the attempt fails with the empty-batch error for every
  endpoint, every credentials and every environment, and the list of requests issued is
  the one it started with: the check comes before serialisation, compression and the
  network, none of which the result depends on.
\<close>

theorem empty_batch_fails_before_network:
  "\<exists>w'. sendToRemoteWrite e url username password [] w
           = Inr (Some ''no time series data to send'', w')
        \<and> requests w' = requests w \<and> sleeps w' = sleeps w"
  by (simp add: sendToRemoteWrite_def)

subsection \<open>The request and its outcome\<close>

theorem status_101_counts_as_success:
  "sendToRemoteWrite (test_env (Inr switching_protocols)) ''http://example.com'' ''user'' ''pass''
     one_series start
   = Inr (None, start\<lparr>calls := 1,
                       requests := [build_request ''http://example.com'' ''user'' ''pass''
                                      ''payload'']\<rparr>)
   \<and> \<not> (200 \<le> StatusCode switching_protocols \<and> StatusCode switching_protocols < 300)"
  by (simp add: send_test_env Let_def switching_protocols_def start_def)

text \<open>
  Claim C9, as the code has it. An attempt on a batch that passes the logging loop, is
  serialised and whose URL is accepted issues exactly one request: a POST to the URL
  whose body is the encoded serialisation, with the three headers, the basic
  authentication from the given user name and password and both time-outs at 30 seconds.
  A transport error fails the attempt; a response makes it succeed exactly when its
  status code is below 300, and otherwise fail with an error that contains the status
  line and the body. There is no lower bound: the example above is a response with
  status 101, which counts as success.
\<close>

theorem delivery_attempt_request_and_outcome:
  assumes "series \<noteq> []" "copy_series [] series = Inr tsList" "Marshal e tsList = Inr data"
    and "NewRequest e ''POST'' url = None"
  shows "\<exists>req err w'. sendToRemoteWrite e url username password series w = Inr (err, w')
     \<and> requests w' = requests w @ [req]
     \<and> Method req = ''POST'' \<and> RequestURL req = url \<and> Body req = snappy_Encode e data
     \<and> Header_Get (Header req) ''Content-Encoding'' = Some ''snappy''
     \<and> Header_Get (Header req) ''Content-Type'' = Some ''application/x-protobuf''
     \<and> Header_Get (Header req) ''X-Prometheus-Remote-Write-Version'' = Some ''0.1.0''
     \<and> BasicAuth req = Some (username, password)
     \<and> ContextTimeout req = 30 * Second \<and> ClientTimeout req = 30 * Second
     \<and> (case Do e (length (requests w)) req of
          Inl m \<Rightarrow> err = Some (''failed to send HTTP request: '' @ m)
        | Inr resp \<Rightarrow>
            (StatusCode resp < 300 \<and> err = None)
            \<or> (300 \<le> StatusCode resp
               \<and> (\<exists>m. err = Some m \<and> Contains m (Status resp) \<and> Contains m (ResponseBody resp))))"
proof -
  define req where "req = build_request url username password (snappy_Encode e data)"
  define w1 where "w1 = w\<lparr>calls := Suc (calls w), requests := requests w @ [req]\<rparr>"
  define err where "err = (case Do e (length (requests w)) req of
          Inl m \<Rightarrow> Some (''failed to send HTTP request: '' @ m)
        | Inr resp \<Rightarrow>
            if 300 \<le> StatusCode resp
            then Some (''remote_write failed: '' @ Status resp @ '' - '' @ ResponseBody resp)
            else None)"
  have send: "sendToRemoteWrite e url username password series w = Inr (err, w1)"
    using assms
    by (simp add: sendToRemoteWrite_def Let_def client_Do_def req_def w1_def err_def
          split: sum.splits)
  have rq: "requests w1 = requests w @ [req]" by (simp add: w1_def)
  have fields: "Method req = ''POST''" "RequestURL req = url" "Body req = snappy_Encode e data"
    "BasicAuth req = Some (username, password)"
    "ContextTimeout req = 30 * Second" "ClientTimeout req = 30 * Second"
    by (simp_all add: req_def build_request_def Let_def)
  have hdr: "Header_Get (Header req) ''Content-Encoding'' = Some ''snappy''"
    "Header_Get (Header req) ''Content-Type'' = Some ''application/x-protobuf''"
    "Header_Get (Header req) ''X-Prometheus-Remote-Write-Version'' = Some ''0.1.0''"
    unfolding req_def by (rule build_request_headers)+
  have outcome: "(case Do e (length (requests w)) req of
          Inl m \<Rightarrow> err = Some (''failed to send HTTP request: '' @ m)
        | Inr resp \<Rightarrow>
            (StatusCode resp < 300 \<and> err = None)
            \<or> (300 \<le> StatusCode resp
               \<and> (\<exists>m. err = Some m \<and> Contains m (Status resp) \<and> Contains m (ResponseBody resp))))"
  proof (cases "Do e (length (requests w)) req")
    case (Inl m)
    then show ?thesis by (simp add: err_def)
  next
    case (Inr resp)
    show ?thesis
    proof (cases "300 \<le> StatusCode resp")
      case True
      have "Contains (''remote_write failed: '' @ Status resp @ ('' - '' @ ResponseBody resp))
              (Status resp)"
        by (rule Contains_embedded) (simp add: Contains_iff, metis append_Nil append_Nil2)
      moreover have "Contains ((''remote_write failed: '' @ Status resp @ '' - '') @ ResponseBody resp)
              (ResponseBody resp)"
        by (rule Contains_suffix)
      ultimately show ?thesis using Inr True by (simp add: err_def)
    next
      case False
      with Inr show ?thesis by (simp add: err_def)
    qed
  qed
  show ?thesis
    using send rq fields hdr outcome by blast
qed

theorem delivery_attempt_request_and_outcome_witness:
  "one_series \<noteq> [] \<and> copy_series [] one_series = Inr (map the one_series)
   \<and> Marshal (test_env (Inr server_error)) (map the one_series) = Inr ''payload''
   \<and> NewRequest (test_env (Inr server_error)) ''POST'' ''http://example.com'' = None
   \<and> (\<exists>req err w'. sendToRemoteWrite (test_env (Inr server_error)) ''http://example.com''
                      ''user'' ''pass'' one_series start = Inr (err, w')
        \<and> requests w' = [req] \<and> Method req = ''POST'' \<and> Body req = ''payload''
        \<and> BasicAuth req = Some (''user'', ''pass'')
        \<and> (\<exists>m. err = Some m \<and> Contains m ''Internal server error with details''))"
proof -
  have a: "one_series \<noteq> []" by (simp add: one_series_def)
  have b: "copy_series [] one_series = Inr (map the one_series)"
    by (simp add: one_series_def createTimeSeries_def)
  have c: "Marshal (test_env (Inr server_error)) (map the one_series) = Inr ''payload''"
    by (simp add: test_env_def)
  have d: "NewRequest (test_env (Inr server_error)) ''POST'' ''http://example.com'' = None"
    by (simp add: test_env_def)
  have e: "snappy_Encode (test_env (Inr server_error)) ''payload'' = ''payload''"
    by (simp add: test_env_def)
  have f: "Do (test_env (Inr server_error)) k req = Inr server_error" for k req
    by (simp add: test_env_def)
  have g: "\<not> StatusCode server_error < 300" "ResponseBody server_error = ''Internal server error with details''"
    by (simp_all add: server_error_def)
  have s: "requests start = []" by (simp add: start_def)
  obtain req err w' where
    "sendToRemoteWrite (test_env (Inr server_error)) ''http://example.com''
                      ''user'' ''pass'' one_series start = Inr (err, w')"
    "requests w' = requests start @ [req]" "Method req = ''POST''"
    "Body req = snappy_Encode (test_env (Inr server_error)) ''payload''"
    "BasicAuth req = Some (''user'', ''pass'')"
    "(case Do (test_env (Inr server_error)) (length (requests start)) req of
          Inl m \<Rightarrow> err = Some (''failed to send HTTP request: '' @ m)
        | Inr resp \<Rightarrow>
            (StatusCode resp < 300 \<and> err = None)
            \<or> (300 \<le> StatusCode resp
               \<and> (\<exists>m. err = Some m \<and> Contains m (Status resp) \<and> Contains m (ResponseBody resp))))"
    using delivery_attempt_request_and_outcome[OF a b c d, of "''user''" "''pass''" start]
    by blast
  then show ?thesis using a b c d e f g s by auto
qed

subsection \<open>Reading the first sample\<close>

text \<open>
  Claim C10. For a slice that is not empty, the attempt returns (with or without an
  error) exactly when every element points to a series with at least one sample; and
  when no pointer is \<^verbatim>\<open>nil\<close> and some series has no sample, reading \<^verbatim>\<open>Samples[0]\<close>
  panics with an index out of range.
\<close>

theorem samples_index_needs_precondition:
  "(series \<noteq> [] \<longrightarrow>
      ((\<exists>r. sendToRemoteWrite e url username password series w = Inr r)
         \<longleftrightarrow> list_all has_sample series))
   \<and> (list_all (\<lambda>ts. ts \<noteq> None) series \<and> \<not> list_all has_sample series \<longrightarrow>
        sendToRemoteWrite e url username password series w = Inl IndexOutOfRange)"
proof (intro conjI impI)
  assume "series \<noteq> []"
  then show "(\<exists>r. sendToRemoteWrite e url username password series w = Inr r)
               \<longleftrightarrow> list_all has_sample series"
    by (rule sendToRemoteWrite_returns_iff)
next
  assume a: "list_all (\<lambda>ts. ts \<noteq> None) series \<and> \<not> list_all has_sample series"
  then have "series \<noteq> []" by auto
  moreover from a have "copy_series [] series = Inl IndexOutOfRange"
    by (simp add: copy_series_index_panic)
  ultimately show "sendToRemoteWrite e url username password series w = Inl IndexOutOfRange"
    by (simp add: sendToRemoteWrite_def)
qed

theorem samples_index_needs_precondition_witness:
  "(one_series \<noteq> [] \<and> list_all has_sample one_series
      \<and> (\<exists>r. sendToRemoteWrite (test_env (Inr forbidden)) ''http://example.com'' ''user'' ''pass''
                 one_series start = Inr r))
   \<and> (list_all (\<lambda>ts. ts \<noteq> None) (one_series @ [Some no_samples])
      \<and> \<not> list_all has_sample (one_series @ [Some no_samples])
      \<and> sendToRemoteWrite (test_env (Inr forbidden)) ''http://example.com'' ''user'' ''pass''
            (one_series @ [Some no_samples]) start = Inl IndexOutOfRange)"
proof -
  have a: "one_series \<noteq> []" and b: "list_all has_sample one_series"
    by (simp_all add: one_series_def has_sample_def createTimeSeries_def)
  have c: "list_all (\<lambda>ts. ts \<noteq> None) (one_series @ [Some no_samples])"
    and d: "\<not> list_all has_sample (one_series @ [Some no_samples])"
    by (simp_all add: one_series_def has_sample_def no_samples_def)
  show ?thesis
    using a b c d
      samples_index_needs_precondition
        [of one_series "test_env (Inr forbidden)" "''http://example.com''" "''user''" "''pass''" start]
      samples_index_needs_precondition
        [of "one_series @ [Some no_samples]" "test_env (Inr forbidden)" "''http://example.com''"
            "''user''" "''pass''" start]
    by blast
qed

end
